theory Spec2Isabelle
  imports Complex_Main "HOL-Library.AList" "HOL-Library.List_Lexorder"
begin

section \<open>Strings, dictionaries and the linguistic collaborators\<close>

text \<open>
  A Python \<open>str\<close> is a sequence of Unicode code points and \<open>len\<close> counts code points,
  so a string is a list of code points. The order of \<open>HOL-Library.List_Lexorder\<close> on such
  lists is the order Python's \<open>sorted\<close> uses on strings (code point by code point, a
  proper prefix first).
\<close>

type_synonym ustring = "nat list"

text \<open>The lower-case letters of the Russian alphabet, by their Unicode names.\<close>

abbreviation cy_a :: nat where "cy_a \<equiv> 1072"
abbreviation cy_be :: nat where "cy_be \<equiv> 1073"
abbreviation cy_ve :: nat where "cy_ve \<equiv> 1074"
abbreviation cy_ghe :: nat where "cy_ghe \<equiv> 1075"
abbreviation cy_de :: nat where "cy_de \<equiv> 1076"
abbreviation cy_ie :: nat where "cy_ie \<equiv> 1077"
abbreviation cy_zhe :: nat where "cy_zhe \<equiv> 1078"
abbreviation cy_i :: nat where "cy_i \<equiv> 1080"
abbreviation cy_ka :: nat where "cy_ka \<equiv> 1082"
abbreviation cy_el :: nat where "cy_el \<equiv> 1083"
abbreviation cy_em :: nat where "cy_em \<equiv> 1084"
abbreviation cy_en :: nat where "cy_en \<equiv> 1085"
abbreviation cy_o :: nat where "cy_o \<equiv> 1086"
abbreviation cy_pe :: nat where "cy_pe \<equiv> 1087"
abbreviation cy_er :: nat where "cy_er \<equiv> 1088"
abbreviation cy_es :: nat where "cy_es \<equiv> 1089"
abbreviation cy_te :: nat where "cy_te \<equiv> 1090"
abbreviation cy_u :: nat where "cy_u \<equiv> 1091"
abbreviation cy_ha :: nat where "cy_ha \<equiv> 1093"
abbreviation cy_che :: nat where "cy_che \<equiv> 1095"
abbreviation cy_sha :: nat where "cy_sha \<equiv> 1096"
abbreviation cy_yeru :: nat where "cy_yeru \<equiv> 1099"
abbreviation cy_soft :: nat where "cy_soft \<equiv> 1100"
abbreviation cy_io :: nat where "cy_io \<equiv> 1105"
abbreviation hyphen :: nat where "hyphen \<equiv> 45"
abbreviation space :: nat where "space \<equiv> 32"
abbreviation full_stop :: nat where "full_stop \<equiv> 46"
abbreviation cy_capital_ve :: nat where "cy_capital_ve \<equiv> 1042"
abbreviation cy_capital_ka :: nat where "cy_capital_ka \<equiv> 1050"
abbreviation cy_capital_es :: nat where "cy_capital_es \<equiv> 1057"

text \<open>
  \<open>str.strip()\<close> with no argument removes leading and trailing white space, the code
  points for which \<open>str.isspace\<close> holds.
\<close>

definition isspace :: "nat \<Rightarrow> bool" where
  "isspace c \<longleftrightarrow>
     (9 \<le> c \<and> c \<le> 13) \<or> (28 \<le> c \<and> c \<le> 32) \<or> c = 133 \<or> c = 160 \<or> c = 5760 \<or>
     (8192 \<le> c \<and> c \<le> 8202) \<or> c = 8232 \<or> c = 8233 \<or> c = 8239 \<or> c = 8287 \<or> c = 12288"

definition strip :: "ustring \<Rightarrow> ustring" where
  "strip s = rev (dropWhile isspace (rev (dropWhile isspace s)))"

text \<open>
  One analysis returned by \<open>morph.parse\<close>: the fields the program reads.
  \<open>tag_POS\<close> is \<open>p.tag.POS\<close>, which is \<open>None\<close> for a token without a part of speech.
\<close>

record parse =
  normal_form :: ustring
  tag_POS :: "string option"
  score :: real

text \<open>
  The libraries the program calls are not part of the repository; they are parameters:
  \<^item> \<open>lower\<close> is \<open>str.lower\<close>;
  \<^item> \<open>sent_tokenize\<close> is NLTK's \<open>sent_tokenize(_, language='russian')\<close>;
  \<^item> \<open>re_findall_words\<close> is \<open>re.findall\<close> with the pattern of line 79
    (runs of the letters a-ya and io, joined by single hyphens, between word boundaries);
  \<^item> \<open>morph_parse\<close> is \<open>pymorphy3.MorphAnalyzer().parse\<close>;
  \<^item> \<open>nltk_stopwords\<close> is \<open>set(stopwords.words('russian'))\<close>.
\<close>

record env =
  lower :: "ustring \<Rightarrow> ustring"
  sent_tokenize :: "ustring \<Rightarrow> ustring list"
  re_findall_words :: "ustring \<Rightarrow> ustring list"
  morph_parse :: "ustring \<Rightarrow> parse list"
  nltk_stopwords :: "ustring set"

text \<open>
  A Python \<open>dict\<close> keeps its keys in insertion order: assigning to a new key appends an
  entry, assigning to an existing key keeps its place (\<open>AList.update\<close>), \<open>del\<close> removes
  the entry (\<open>AList.delete\<close>). Both the candidate mapping and the lexicon are dictionaries
  from a lemma to a set of lemmas.
\<close>

type_synonym lexicon = "(ustring \<times> ustring set) list"

text \<open>\<open>self.lexicon.get(lemma, [])\<close>, as \<open>show_partners\<close> reads the partner set.\<close>

definition partners :: "lexicon \<Rightarrow> ustring \<Rightarrow> ustring set" where
  "partners d k = (case map_of d k of None \<Rightarrow> {} | Some s \<Rightarrow> s)"

datatype py_error = KeyError | ValueError

text \<open>\<open>d[k].add(x)\<close> and \<open>d[k].discard(x)\<close> on a plain dictionary: indexing a missing key raises.\<close>

definition set_add :: "lexicon \<Rightarrow> ustring \<Rightarrow> ustring \<Rightarrow> py_error + lexicon" where
  "set_add d k x =
     (case map_of d k of None \<Rightarrow> Inl KeyError | Some s \<Rightarrow> Inr (AList.update k (insert x s) d))"

definition set_discard :: "lexicon \<Rightarrow> ustring \<Rightarrow> ustring \<Rightarrow> py_error + lexicon" where
  "set_discard d k x =
     (case map_of d k of None \<Rightarrow> Inl KeyError | Some s \<Rightarrow> Inr (AList.update k (s - {x}) d))"

text \<open>\<open>d[k].add(x)\<close> on a \<open>defaultdict(set)\<close>: a missing key is first entered with an empty set.\<close>

definition defaultdict_add :: "lexicon \<Rightarrow> ustring \<Rightarrow> ustring \<Rightarrow> lexicon" where
  "defaultdict_add d k x = AList.update k (insert x (partners d k)) d"

section \<open>The stop words\<close>

text \<open>The fourteen particles and artefacts added to the NLTK list (lines 40 to 43).\<close>

definition extra_stopwords :: "ustring set" where
  "extra_stopwords =
    {[cy_be, cy_yeru],
     [cy_zhe, cy_ie],
     [cy_el, cy_i],
     [cy_be, cy_yeru, cy_te, cy_soft],
     [cy_en, cy_i, cy_be, cy_u, cy_de, cy_soft],
     [cy_ka, cy_o, cy_ie],
     [cy_te, cy_o],
     [cy_el, cy_i, cy_be, cy_o],
     [cy_te, cy_a, cy_ka, cy_i],
     [cy_en, cy_i, cy_be, cy_yeru, cy_te, cy_soft],
     [cy_el, cy_i, cy_be, cy_yeru, cy_te, cy_soft],
     [cy_te, cy_o, cy_be, cy_yeru, cy_te, cy_soft],
     [cy_ka, cy_o, cy_ghe, cy_de, cy_a, hyphen, cy_en, cy_i, cy_be, cy_u, cy_de, cy_soft],
     [cy_ghe, cy_de, cy_ie, hyphen, cy_en, cy_i, cy_be, cy_u, cy_de, cy_soft]}"

definition russian_stopwords :: "env \<Rightarrow> ustring set" where
  "russian_stopwords e = nltk_stopwords e \<union> extra_stopwords"

text \<open>The particle artefacts of line 98 and those of line 295 (the latter without \<open>koe\<close>).\<close>

definition extract_artifacts :: "ustring set" where
  "extract_artifacts =
    {[cy_en, cy_i, cy_be, cy_yeru, cy_te, cy_soft],
     [cy_el, cy_i, cy_be, cy_yeru, cy_te, cy_soft],
     [cy_te, cy_o, cy_be, cy_yeru, cy_te, cy_soft],
     [cy_ka, cy_o, cy_ie]}"

definition add_partner_artifacts :: "ustring set" where
  "add_partner_artifacts =
    {[cy_en, cy_i, cy_be, cy_yeru, cy_te, cy_soft],
     [cy_el, cy_i, cy_be, cy_yeru, cy_te, cy_soft],
     [cy_te, cy_o, cy_be, cy_yeru, cy_te, cy_soft]}"

definition content_POS :: "string set" where
  "content_POS = {''NOUN'', ''VERB'', ''INFN'', ''ADJF'', ''ADJS'', ''PRTF'', ''PRTS''}"

section \<open>TextProcessor.extract_collocations\<close>

text \<open>
  \<open>max(parses, key=lambda p: p.score)\<close> on the non-empty list \<open>p # ps\<close>: the running
  maximum is replaced only by a strictly greater score, so the first maximal analysis wins.
\<close>

definition max_score :: "parse \<Rightarrow> parse list \<Rightarrow> parse" where
  "max_score p ps = foldl (\<lambda>best q. if score best < score q then q else best) p ps"

text \<open>
  The body of the loop over the words of a sentence (lines 83 to 103): \<open>Some lemma\<close> when
  the word's lemma is appended to \<open>lemmas\<close>, \<open>None\<close> when the word is skipped.
\<close>

definition word_lemma :: "env \<Rightarrow> ustring \<Rightarrow> ustring option" where
  "word_lemma e word =
     (if length word < 4 \<or> word \<in> russian_stopwords e then None
      else case morph_parse e word of
        [] \<Rightarrow> None
      | p # ps \<Rightarrow>
          let parsed = max_score p ps;
              pos = tag_POS parsed;
              lemma = lower e (normal_form parsed)
          in if lemma \<in> extract_artifacts \<or> lemma \<in> russian_stopwords e then None
             else if pos \<in> Some ` content_POS then Some lemma
             else None)"

fun collect_lemmas :: "env \<Rightarrow> ustring list \<Rightarrow> ustring list \<Rightarrow> ustring list" where
  "collect_lemmas e lemmas [] = lemmas"
| "collect_lemmas e lemmas (word # words) =
     collect_lemmas e (case word_lemma e word of None \<Rightarrow> lemmas | Some l \<Rightarrow> lemmas @ [l]) words"

definition sentence_lemmas :: "env \<Rightarrow> ustring \<Rightarrow> ustring list" where
  "sentence_lemmas e sent = collect_lemmas e [] (re_findall_words e sent)"

text \<open>
  The loop \<open>for i in range(len(lemmas) - 1)\<close> (lines 106 to 110), as a recursion on the
  rest of the list from position \<open>i\<close>: \<open>a\<close> and \<open>b\<close> are \<open>lemmas[i]\<close> and \<open>lemmas[i + 1]\<close>.
\<close>

fun bigrams :: "lexicon \<Rightarrow> ustring list \<Rightarrow> lexicon" where
  "bigrams d (a # b # rest) =
     bigrams (if a \<noteq> b \<and> 4 \<le> length a \<and> 4 \<le> length b
              then defaultdict_add (defaultdict_add d a b) b a else d) (b # rest)"
| "bigrams d [a] = d"
| "bigrams d [] = d"

definition sentences :: "env \<Rightarrow> ustring \<Rightarrow> ustring list" where
  "sentences e text = sent_tokenize e (lower e text)"

definition extract_collocations :: "env \<Rightarrow> ustring \<Rightarrow> lexicon" where
  "extract_collocations e text =
     foldl (\<lambda>colloc_dict sent. bigrams colloc_dict (sentence_lemmas e sent)) [] (sentences e text)"

section \<open>LexiconEditor: the handlers that change or export the lexicon\<close>

text \<open>
  A handler ends in one of four ways: it completes (\<open>Done\<close>), it shows a warning or an
  information box and returns (\<open>Warned\<close>), it catches an exception and reports it
  (\<open>Caught\<close>, only \<open>load_file\<close> has an exception handler), or an exception leaves it
  (\<open>Raised\<close>).
  The lexicon is mutated in place, so every outcome comes with the lexicon as the handler
  leaves it.
\<close>

datatype warning = TooShort | Unrecognised | ServiceWord | SelfPartner | AlreadyEmpty

datatype status = Done | Warned warning | Caught py_error | Raised py_error

text \<open>
  Lines 221 to 224 of \<open>load_file\<close>: the decoded text is refused when \<open>text.strip()\<close> is
  empty, and passed to \<open>extract_collocations\<close> otherwise.
\<close>

definition extract_document :: "env \<Rightarrow> ustring \<Rightarrow> py_error + lexicon" where
  "extract_document e text =
     (if strip text = [] then Inl ValueError else Inr (extract_collocations e text))"

text \<open>Lines 227 to 230: the loop over \<open>new_collocs.items()\<close>.\<close>

fun merge :: "lexicon \<Rightarrow> lexicon \<Rightarrow> lexicon" where
  "merge lexicon [] = lexicon"
| "merge lexicon ((lemma, ps) # rest) =
     (let lexicon1 = (if map_of lexicon lemma = None then AList.update lemma {} lexicon else lexicon)
      in merge (AList.update lemma (partners lexicon1 lemma \<union> ps) lexicon1) rest)"

text \<open>
  \<open>load_file\<close> from the decoded text on (reading and decoding the file is outside the
  model). The \<open>ValueError\<close> is raised before the lexicon is touched and caught by the
  handler's \<open>except\<close>.
\<close>

definition load_file :: "env \<Rightarrow> lexicon \<Rightarrow> ustring \<Rightarrow> status \<times> lexicon" where
  "load_file e lexicon text =
     (case extract_document e text of
        Inl err \<Rightarrow> (Caught err, lexicon)
      | Inr new_collocs \<Rightarrow> (Done, merge lexicon new_collocs))"

text \<open>
  \<open>add_partner\<close> (lines 280 to 307) for the selected lemma and the text of the input
  field. Line 306 indexes the lexicon with the lemma and raises when it is not a key;
  line 305 has then already been executed.
\<close>

definition add_partner :: "env \<Rightarrow> lexicon \<Rightarrow> ustring \<Rightarrow> ustring \<Rightarrow> status \<times> lexicon" where
  "add_partner e lexicon lemma input =
     (let partner_text = lower e (strip input)
      in if partner_text = [] \<or> length partner_text < 4 then (Warned TooShort, lexicon)
         else case morph_parse e partner_text of
           [] \<Rightarrow> (Warned Unrecognised, lexicon)
         | p # ps \<Rightarrow>
             let partner_lemma = lower e (normal_form (max_score p ps))
             in if partner_lemma \<in> russian_stopwords e \<or> partner_lemma \<in> add_partner_artifacts
                then (Warned ServiceWord, lexicon)
                else if lemma = partner_lemma then (Warned SelfPartner, lexicon)
                else
                  let lexicon1 = (if map_of lexicon partner_lemma = None
                              then AList.update partner_lemma {} lexicon else lexicon)
                  in case set_add lexicon1 lemma partner_lemma of
                       Inl err \<Rightarrow> (Raised err, lexicon1)
                     | Inr lexicon2 \<Rightarrow>
                         (case set_add lexicon2 partner_lemma lemma of
                            Inl err \<Rightarrow> (Raised err, lexicon2)
                          | Inr lexicon3 \<Rightarrow> (Done, lexicon3)))"

text \<open>Lines 329 to 332: \<open>if k in self.lexicon and not self.lexicon[k]: del self.lexicon[k]\<close>.\<close>

definition prune :: "lexicon \<Rightarrow> ustring \<Rightarrow> lexicon" where
  "prune d k = (case map_of d k of None \<Rightarrow> d | Some s \<Rightarrow> if s = {} then AList.delete k d else d)"

text \<open>\<open>remove_partner\<close> (lines 322 to 332) for the selected lemma and the selected partner.\<close>

definition remove_partner :: "lexicon \<Rightarrow> ustring \<Rightarrow> ustring \<Rightarrow> status \<times> lexicon" where
  "remove_partner lexicon lemma partner =
     (case set_discard lexicon lemma partner of
        Inl err \<Rightarrow> (Raised err, lexicon)
      | Inr lexicon1 \<Rightarrow>
          (case set_discard lexicon1 partner lemma of
             Inl err \<Rightarrow> (Raised err, lexicon1)
           | Inr lexicon2 \<Rightarrow> (Done, prune (prune lexicon2 lemma) partner)))"

text \<open>\<open>clear_all\<close>; \<open>confirmed\<close> is the answer to the confirmation dialog.\<close>

definition clear_all :: "lexicon \<Rightarrow> bool \<Rightarrow> status \<times> lexicon" where
  "clear_all lexicon confirmed =
     (if lexicon = [] then (Warned AlreadyEmpty, lexicon)
      else if confirmed then (Done, []) else (Done, lexicon))"

text \<open>
  \<open>save_lexicon\<close> up to the dictionary handed to \<open>json.dump\<close> (line 351):
  \<open>sorted(list(v))\<close> for every entry, the entries in the order of \<open>self.lexicon.items()\<close>.
  \<open>json.dump\<close> is called without \<open>sort_keys\<close> and writes the entries in that order.
  An empty lexicon is refused with a warning.
\<close>

definition save_lexicon :: "lexicon \<Rightarrow> (ustring \<times> ustring list) list option" where
  "save_lexicon lexicon =
     (if lexicon = [] then None else Some (map (\<lambda>(k, v). (k, sorted_list_of_set v)) lexicon))"

section \<open>Sequences of operations\<close>

datatype operation =
  Load ustring | Add ustring ustring | Remove ustring ustring | Clear

fun step :: "env \<Rightarrow> lexicon \<Rightarrow> operation \<Rightarrow> status \<times> lexicon" where
  "step e lexicon (Load text) = load_file e lexicon text"
| "step e lexicon (Add lemma input) = add_partner e lexicon lemma input"
| "step e lexicon (Remove lemma partner) = remove_partner lexicon lemma partner"
| "step e lexicon Clear = clear_all lexicon True"

text \<open>
  The lexicon after a sequence of operations, each starting where the previous one
  returned. An exception that leaves a handler ends the run, \<open>None\<close>: no handler but
  \<open>load_file\<close> catches anything, and PyQt5 aborts the application on an exception that
  leaves a slot. \<open>add_partner\<close> and \<open>remove_partner\<close> still return the lexicon as the
  exception leaves it.
\<close>

fun run :: "env \<Rightarrow> lexicon \<Rightarrow> operation list \<Rightarrow> lexicon option" where
  "run e lexicon [] = Some lexicon"
| "run e lexicon (x # xs) =
     (case step e lexicon x of
        (Raised err, lexicon') \<Rightarrow> None
      | (_, lexicon') \<Rightarrow> run e lexicon' xs)"

section \<open>Notions used in the statements\<close>

text \<open>The consecutive pairs of a sequence: the window of size two.\<close>

definition consecutive_pairs :: "'a list \<Rightarrow> ('a \<times> 'a) list" where
  "consecutive_pairs xs = zip xs (tl xs)"

text \<open>Every entry of the candidate mapping has a non-empty set, and only long lemmas.\<close>

definition long_entries :: "lexicon \<Rightarrow> bool" where
  "long_entries d \<longleftrightarrow> (\<forall>(k, ps) \<in> set d. 4 \<le> length k \<and> ps \<noteq> {} \<and> (\<forall>p \<in> ps. 4 \<le> length p))"

text \<open>The invariants of the lexicon.\<close>

definition symmetric :: "lexicon \<Rightarrow> bool" where
  "symmetric d \<longleftrightarrow> (\<forall>a b. b \<in> partners d a \<longleftrightarrow> a \<in> partners d b)"

definition no_empty_entry :: "lexicon \<Rightarrow> bool" where
  "no_empty_entry d \<longleftrightarrow> distinct (map fst d) \<and> (\<forall>k. map_of d k \<noteq> Some {})"

section \<open>A concrete environment\<close>

text \<open>
  What the libraries return on the Russian words and sentences of the examples below
  (transliterated names; the part-of-speech tags are OpenCorpora's).
\<close>

definition koshka :: ustring where "koshka = [cy_ka, cy_o, cy_sha, cy_ka, cy_a]"
definition spit :: ustring where "spit = [cy_es, cy_pe, cy_i, cy_te]"
definition spat :: ustring where "spat = [cy_es, cy_pe, cy_a, cy_te, cy_soft]"
definition sobaka :: ustring where "sobaka = [cy_es, cy_o, cy_be, cy_a, cy_ka, cy_a]"
definition bezhit :: ustring where "bezhit = [cy_be, cy_ie, cy_zhe, cy_i, cy_te]"
definition bezhat :: ustring where "bezhat = [cy_be, cy_ie, cy_zhe, cy_a, cy_te, cy_soft]"
definition kniga :: ustring where "kniga = [cy_ka, cy_en, cy_i, cy_ghe, cy_a]"
definition koty :: ustring where "koty = [cy_ka, cy_o, cy_te, cy_yeru]"
definition kot :: ustring where "kot = [cy_ka, cy_o, cy_te]"
definition vsekh :: ustring where "vsekh = [cy_ve, cy_es, cy_ie, cy_ha]"
definition ves :: ustring where "ves = [cy_ve, cy_ie, cy_es, cy_soft]"
definition word_v :: ustring where "word_v = [cy_ve]"
definition dome :: ustring where "dome = [cy_de, cy_o, cy_em, cy_ie]"
definition word_dom :: ustring where "word_dom = [cy_de, cy_o, cy_em]"
definition zhivyot :: ustring where "zhivyot = [cy_zhe, cy_i, cy_ve, cy_io, cy_te]"
definition zhit :: ustring where "zhit = [cy_zhe, cy_i, cy_te, cy_soft]"
definition tolko :: ustring where "tolko = [cy_te, cy_o, cy_el, cy_soft, cy_ka, cy_o]"
definition vchera :: ustring where "vchera = [cy_ve, cy_che, cy_ie, cy_er, cy_a]"

text \<open>\<open>str.lower\<close> on the Basic Latin and the Cyrillic capital letters.\<close>

definition ru_lower :: "ustring \<Rightarrow> ustring" where
  "ru_lower = map (\<lambda>c. if (65 \<le> c \<and> c \<le> 90) \<or> (1040 \<le> c \<and> c \<le> 1071) then c + 32
                         else if 1024 \<le> c \<and> c \<le> 1039 then c + 80 else c)"

text \<open>
  The lower-cased sentences: "koshka spit.", "sobaka bezhit.",
  "v dome zhivyot tolko koshka." and "v dome.".
\<close>

definition sentence1 :: ustring where "sentence1 = koshka @ [space] @ spit @ [full_stop]"
definition sentence2 :: ustring where "sentence2 = sobaka @ [space] @ bezhit @ [full_stop]"
definition sentence3 :: ustring where
  "sentence3 = word_v @ [space] @ dome @ [space] @ zhivyot @ [space] @ tolko @ [space] @ koshka
     @ [full_stop]"
definition sentence4 :: ustring where "sentence4 = word_v @ [space] @ dome @ [full_stop]"

definition ru_sent_tokenize :: "ustring \<Rightarrow> ustring list" where
  "ru_sent_tokenize text =
     (if text = sentence1 @ [space] @ sentence2 then [sentence1, sentence2]
      else if text = sentence3 then [sentence3]
      else if text = sentence4 then [sentence4]
      else [])"

definition ru_findall_words :: "ustring \<Rightarrow> ustring list" where
  "ru_findall_words sent =
     (if sent = sentence1 then [koshka, spit]
      else if sent = sentence2 then [sobaka, bezhit]
      else if sent = sentence3 then [word_v, dome, zhivyot, tolko, koshka]
      else if sent = sentence4 then [word_v, dome]
      else [])"

definition analysis :: "ustring \<Rightarrow> string \<Rightarrow> real \<Rightarrow> parse" where
  "analysis l t s = \<lparr>normal_form = l, tag_POS = Some t, score = s\<rparr>"

definition ru_morph_parse :: "ustring \<Rightarrow> parse list" where
  "ru_morph_parse word =
     (if word = koshka then [analysis koshka ''NOUN'' 1]
      else if word = spit then [analysis spat ''VERB'' 1]
      else if word = sobaka then [analysis sobaka ''NOUN'' 1]
      else if word = bezhit then [analysis bezhat ''VERB'' 1]
      else if word = kniga then [analysis kniga ''NOUN'' 1]
      else if word = koty then [analysis kot ''NOUN'' 1]
      else if word = dome then [analysis word_dom ''NOUN'' 1]
      else if word = zhivyot then [analysis zhit ''VERB'' 1]
      else if word = vchera then [analysis vchera ''ADVB'' 1]
      else if word = vsekh then
        [analysis ves ''ADJF'' (1/2), analysis ves ''ADJF'' (1/4), analysis ves ''ADJF'' (1/4)]
      else if word = tolko then [analysis tolko ''PRCL'' (3/4), analysis tolko ''CONJ'' (1/4)]
      else [\<lparr>normal_form = word, tag_POS = None, score = 1\<rparr>])"

text \<open>The entries of the NLTK list among the words above.\<close>

definition ru_stopwords :: "ustring set" where
  "ru_stopwords = {word_v, tolko, vsekh}"

definition ru_env :: env where
  "ru_env = \<lparr>lower = ru_lower, sent_tokenize = ru_sent_tokenize,
             re_findall_words = ru_findall_words, morph_parse = ru_morph_parse,
             nltk_stopwords = ru_stopwords\<rparr>"

text \<open>
  The documents "Koshka spit. Sobaka bezhit.", "V dome zhivyot tolko koshka." and
  "V dome.", with their capital letters.
\<close>

definition document1 :: ustring where
  "document1 = cy_capital_ka # tl sentence1 @ [space] @ cy_capital_es # tl sentence2"

definition document2 :: ustring where
  "document2 = cy_capital_ve # tl sentence3"

definition document3 :: ustring where
  "document3 = cy_capital_ve # tl sentence4"

definition lexicon1 :: lexicon where
  "lexicon1 = [(koshka, {spat}), (spat, {koshka}), (sobaka, {bezhat}), (bezhat, {sobaka})]"

text \<open>
  The lexicon after loading the first document, after then adding "koty" as a partner of
  "koshka", and after then removing the link between "koshka" and "spat".
\<close>

definition lexicon2 :: lexicon where
  "lexicon2 =
     [(koshka, {kot, spat}), (spat, {koshka}), (sobaka, {bezhat}), (bezhat, {sobaka}),
      (kot, {koshka})]"

definition lexicon3 :: lexicon where
  "lexicon3 = [(koshka, {kot}), (sobaka, {bezhat}), (bezhat, {sobaka}), (kot, {koshka})]"

definition operations1 :: "operation list" where
  "operations1 = [Load document1, Add koshka koty, Remove koshka spat]"

section \<open>Lemmas\<close>

subsection \<open>Dictionaries\<close>

lemma partners_Nil: "partners [] x = {}"
  by (simp add: partners_def)

lemma partners_update:
  "partners (AList.update k v d) x = (if x = k then v else partners d x)"
  by (simp add: partners_def update_conv')

lemma partners_delete:
  "partners (AList.delete k d) x = (if x = k then {} else partners d x)"
  by (simp add: partners_def delete_conv')

lemma partners_absent: "map_of d k = None \<Longrightarrow> partners d k = {}"
  by (simp add: partners_def)

lemma partners_present: "map_of d k = Some s \<Longrightarrow> partners d k = s"
  by (simp add: partners_def)

lemma partners_defaultdict_add:
  "partners (defaultdict_add d k x) y = (if y = k then insert x (partners d k) else partners d y)"
  by (simp add: defaultdict_add_def partners_update)

lemma set_update_subset: "set (AList.update k v d) \<subseteq> insert (k, v) (set d)"
  by (induction d) auto

lemma partners_entry: "x \<in> partners d k \<Longrightarrow> \<exists>s. (k, s) \<in> set d \<and> x \<in> s"
  by (auto simp: partners_def split: option.splits dest: map_of_SomeD)

subsection \<open>The bigram loop\<close>

lemma consecutive_pairs_simps:
  "consecutive_pairs [] = []"
  "consecutive_pairs [a] = []"
  "consecutive_pairs (a # b # rest) = (a, b) # consecutive_pairs (b # rest)"
  by (simp_all add: consecutive_pairs_def)

lemma consecutive_pairs_members:
  "(a, b) \<in> set (consecutive_pairs xs) \<Longrightarrow> a \<in> set xs \<and> b \<in> set xs"
  unfolding consecutive_pairs_def
  by (cases xs) (auto dest: set_zip_leftD set_zip_rightD)

lemma partners_bigrams:
  "partners (bigrams d xs) a =
     partners d a \<union>
     {b. ((a, b) \<in> set (consecutive_pairs xs) \<or> (b, a) \<in> set (consecutive_pairs xs)) \<and>
         a \<noteq> b \<and> 4 \<le> length a \<and> 4 \<le> length b}"
  by (induction d xs rule: bigrams.induct)
     (auto simp: partners_defaultdict_add consecutive_pairs_simps)

lemma partners_foldl_bigrams:
  "partners (foldl (\<lambda>colloc_dict sent. bigrams colloc_dict (f sent)) d sents) a =
     partners d a \<union>
     {b. \<exists>sent \<in> set sents.
          ((a, b) \<in> set (consecutive_pairs (f sent)) \<or> (b, a) \<in> set (consecutive_pairs (f sent))) \<and>
          a \<noteq> b \<and> 4 \<le> length a \<and> 4 \<le> length b}"
  by (induction sents arbitrary: d) (auto simp: partners_bigrams)

lemma partners_extract_collocations:
  "partners (extract_collocations e text) a =
     {b. \<exists>sent \<in> set (sentences e text).
          ((a, b) \<in> set (consecutive_pairs (sentence_lemmas e sent)) \<or>
           (b, a) \<in> set (consecutive_pairs (sentence_lemmas e sent))) \<and>
          a \<noteq> b \<and> 4 \<le> length a \<and> 4 \<le> length b}"
  by (simp add: extract_collocations_def partners_foldl_bigrams partners_Nil)

lemma collect_lemmas_map_filter:
  "collect_lemmas e acc ws = acc @ List.map_filter (word_lemma e) ws"
  by (induction ws arbitrary: acc) (auto simp: List.map_filter_simps split: option.splits)

lemma long_entries_defaultdict_add:
  assumes "long_entries d" "4 \<le> length k" "4 \<le> length x"
  shows "long_entries (defaultdict_add d k x)"
proof -
  have old: "\<forall>p \<in> partners d k. 4 \<le> length p"
    using assms(1) by (auto simp: long_entries_def dest!: partners_entry)
  have "set (defaultdict_add d k x) \<subseteq> insert (k, insert x (partners d k)) (set d)"
    unfolding defaultdict_add_def by (rule set_update_subset)
  with assms old show ?thesis
    by (auto simp: long_entries_def)
qed

lemma long_entries_bigrams: "long_entries d \<Longrightarrow> long_entries (bigrams d xs)"
  by (induction d xs rule: bigrams.induct) (simp_all add: long_entries_defaultdict_add)

lemma long_entries_foldl:
  "long_entries d \<Longrightarrow> long_entries (foldl (\<lambda>colloc_dict sent. bigrams colloc_dict (f sent)) d sents)"
  by (induction sents arbitrary: d) (auto intro: long_entries_bigrams)

lemma long_entries_extract_collocations: "long_entries (extract_collocations e text)"
  unfolding extract_collocations_def
  by (rule long_entries_foldl) (simp add: long_entries_def)

lemma distinct_bigrams: "distinct (map fst d) \<Longrightarrow> distinct (map fst (bigrams d xs))"
  by (induction d xs rule: bigrams.induct) (auto simp: defaultdict_add_def distinct_update)

lemma distinct_foldl_bigrams:
  "distinct (map fst d) \<Longrightarrow>
   distinct (map fst (foldl (\<lambda>colloc_dict sent. bigrams colloc_dict (f sent)) d sents))"
  by (induction sents arbitrary: d) (auto intro: distinct_bigrams)

lemma distinct_extract_collocations: "distinct (map fst (extract_collocations e text))"
  unfolding extract_collocations_def by (rule distinct_foldl_bigrams) simp

lemma bigrams_no_pairs:
  "\<forall>(a, b) \<in> set (consecutive_pairs xs). \<not> (a \<noteq> b \<and> 4 \<le> length a \<and> 4 \<le> length b) \<Longrightarrow>
   bigrams d xs = d"
  by (induction d xs rule: bigrams.induct) (auto simp: consecutive_pairs_simps)

lemma foldl_bigrams_no_pairs:
  "\<forall>sent \<in> set sents. \<forall>(a, b) \<in> set (consecutive_pairs (f sent)).
      \<not> (a \<noteq> b \<and> 4 \<le> length a \<and> 4 \<le> length b) \<Longrightarrow>
   foldl (\<lambda>colloc_dict sent. bigrams colloc_dict (f sent)) d sents = d"
  by (induction sents arbitrary: d) (simp_all add: bigrams_no_pairs)

lemma strip_empty_iff: "strip s = [] \<longleftrightarrow> (\<forall>c \<in> set s. isspace c)"
proof
  assume "strip s = []"
  then have "dropWhile isspace (rev (dropWhile isspace s)) = []"
    by (simp add: strip_def)
  then have "\<forall>c \<in> set (rev (dropWhile isspace s)). isspace c"
    unfolding dropWhile_eq_Nil_conv .
  then have all: "\<forall>c \<in> set (dropWhile isspace s). isspace c"
    unfolding set_rev .
  have "dropWhile isspace s = []"
  proof (rule ccontr)
    assume ne: "dropWhile isspace s \<noteq> []"
    then have "\<not> isspace (hd (dropWhile isspace s))" by (rule hd_dropWhile)
    moreover have "hd (dropWhile isspace s) \<in> set (dropWhile isspace s)" using ne by simp
    ultimately show False using all by blast
  qed
  then show "\<forall>c \<in> set s. isspace c" by (simp add: dropWhile_eq_Nil_conv)
next
  assume "\<forall>c \<in> set s. isspace c"
  then have "dropWhile isspace s = []" by (simp add: dropWhile_eq_Nil_conv)
  then show "strip s = []" by (simp only: strip_def rev.simps dropWhile.simps)
qed

subsection \<open>Merging\<close>

lemma partners_Cons:
  "partners ((k, ps) # rest) a = (if a = k then ps else partners rest a)"
  by (simp add: partners_def)

lemma merge_Cons:
  "merge lexicon ((k, ps) # rest) = merge (AList.update k (partners lexicon k \<union> ps) lexicon) rest"
  by (simp add: Let_def partners_update partners_absent)

lemma partners_merge:
  "distinct (map fst new) \<Longrightarrow> partners (merge lexicon new) a = partners lexicon a \<union> partners new a"
proof (induction new arbitrary: lexicon)
  case Nil
  then show ?case by (simp add: partners_Nil)
next
  case (Cons entry rest)
  obtain k ps where entry: "entry = (k, ps)" by (cases entry)
  from Cons.prems entry have k: "map_of rest k = None" and d: "distinct (map fst rest)"
    by (auto simp: map_of_eq_None_iff)
  have rest_k: "partners rest k = {}" using k by (rule partners_absent)
  let ?lexicon1 = "if map_of lexicon k = None then AList.update k {} lexicon else lexicon"
  let ?lexicon2 = "AList.update k (partners ?lexicon1 k \<union> ps) ?lexicon1"
  have one: "partners ?lexicon1 x = partners lexicon x" for x
    by (simp add: partners_update partners_absent)
  have two: "partners ?lexicon2 x = (if x = k then partners lexicon k \<union> ps else partners lexicon x)" for x
    unfolding partners_update [of k _ ?lexicon1] one ..
  have "partners (merge lexicon (entry # rest)) a = partners (merge ?lexicon2 rest) a"
    by (simp add: entry Let_def)
  also have "\<dots> = partners ?lexicon2 a \<union> partners rest a"
    by (rule Cons.IH [OF d])
  also have "\<dots> = partners lexicon a \<union> partners (entry # rest) a"
    unfolding two entry partners_Cons using rest_k by auto
  finally show ?case .
qed

lemma merge_grows:
  "map_of lexicon k = Some s \<Longrightarrow> \<exists>s'. map_of (merge lexicon new) k = Some s' \<and> s \<subseteq> s'"
proof (induction new arbitrary: lexicon s)
  case Nil
  then show ?case by simp
next
  case (Cons entry rest)
  obtain l ps where entry: "entry = (l, ps)" by (cases entry)
  let ?lexicon1 = "if map_of lexicon l = None then AList.update l {} lexicon else lexicon"
  let ?lexicon2 = "AList.update l (partners ?lexicon1 l \<union> ps) ?lexicon1"
  have "\<exists>t. map_of ?lexicon2 k = Some t \<and> s \<subseteq> t"
    using Cons.prems by (auto simp: update_conv' partners_def)
  then obtain t where t: "map_of ?lexicon2 k = Some t" "s \<subseteq> t" by blast
  from Cons.IH [OF t(1)] obtain s' where "map_of (merge ?lexicon2 rest) k = Some s'" "t \<subseteq> s'"
    by blast
  with t(2) entry show ?case by (auto simp: Let_def)
qed

lemma merge_contains:
  "\<forall>(k, ps) \<in> set new. \<exists>s. map_of (merge lexicon new) k = Some s \<and> ps \<subseteq> s"
proof (induction new arbitrary: lexicon)
  case Nil
  then show ?case by simp
next
  case (Cons entry rest)
  obtain l ps where entry: "entry = (l, ps)" by (cases entry)
  let ?lexicon1 = "if map_of lexicon l = None then AList.update l {} lexicon else lexicon"
  let ?lexicon2 = "AList.update l (partners ?lexicon1 l \<union> ps) ?lexicon1"
  have "map_of ?lexicon2 l = Some (partners ?lexicon1 l \<union> ps)"
    by (simp add: update_conv')
  from merge_grows [OF this, of rest]
  have "\<exists>s. map_of (merge ?lexicon2 rest) l = Some s \<and> ps \<subseteq> s" by auto
  with Cons.IH [of ?lexicon2] entry show ?case by (auto simp: Let_def)
qed

lemma merge_fixed:
  "\<forall>(k, ps) \<in> set new. \<exists>s. map_of lexicon k = Some s \<and> ps \<subseteq> s \<Longrightarrow> merge lexicon new = lexicon"
proof (induction new)
  case Nil
  then show ?case by simp
next
  case (Cons entry rest)
  obtain l ps where entry: "entry = (l, ps)" by (cases entry)
  from Cons.prems entry obtain s where s: "map_of lexicon l = Some s" "ps \<subseteq> s" by auto
  then have "AList.update l (partners lexicon l \<union> ps) lexicon = lexicon"
    by (intro update_triv) (auto simp: partners_def)
  with s Cons entry show ?case by (simp add: Let_def)
qed

lemma merge_idem: "merge (merge lexicon new) new = merge lexicon new"
  by (rule merge_fixed) (rule merge_contains)

lemma merge_keeps: "partners lexicon k \<subseteq> partners (merge lexicon new) k"
proof (cases "map_of lexicon k")
  case None
  then show ?thesis by (simp add: partners_def)
next
  case (Some s)
  from merge_grows [OF this, of new] Some show ?thesis by (auto simp: partners_def)
qed

subsection \<open>What the editing handlers do to the dictionary\<close>

lemma add_partner_Warned:
  "add_partner e lexicon lemma input = (Warned w, lexicon') \<Longrightarrow> lexicon' = lexicon"
  by (auto simp: add_partner_def Let_def split: if_splits list.splits sum.splits)

lemma add_partner_not_Caught: "add_partner e lexicon lemma input \<noteq> (Caught err, lexicon')"
  by (auto simp: add_partner_def Let_def split: if_splits list.splits sum.splits)

lemma add_partner_Done:
  assumes "add_partner e lexicon lemma input = (Done, lexicon')"
  shows "\<exists>p. p \<noteq> lemma \<and> map_of lexicon lemma \<noteq> None \<and>
             map_of lexicon' =
               (map_of lexicon)(p \<mapsto> insert lemma (partners lexicon p),
                                lemma \<mapsto> insert p (partners lexicon lemma)) \<and>
             (distinct (map fst lexicon) \<longrightarrow> distinct (map fst lexicon'))"
  using assms
  by (auto simp: add_partner_def Let_def set_add_def update_conv' partners_def distinct_update
                 fun_upd_twist
           split: if_splits list.splits sum.splits option.splits)

lemma remove_partner_not_Warned: "remove_partner lexicon lemma partner \<noteq> (Warned w, lexicon')"
  by (auto simp: remove_partner_def split: sum.splits)

lemma remove_partner_not_Caught: "remove_partner lexicon lemma partner \<noteq> (Caught err, lexicon')"
  by (auto simp: remove_partner_def split: sum.splits)

lemma map_of_prune:
  "map_of (prune d k) x = (if x = k \<and> map_of d k = Some {} then None else map_of d x)"
  by (auto simp: prune_def delete_conv' split: option.splits)

lemma distinct_prune: "distinct (map fst d) \<Longrightarrow> distinct (map fst (prune d k))"
  by (auto simp: prune_def distinct_delete split: option.splits)

lemma remove_partner_Done:
  assumes "remove_partner lexicon lemma partner = (Done, lexicon')"
  shows "map_of lexicon lemma \<noteq> None \<and> map_of lexicon partner \<noteq> None \<and>
         (\<forall>k. map_of lexicon' k =
            (if k = lemma then
               (if partners lexicon lemma - {partner} = {} then None
                else Some (partners lexicon lemma - {partner}))
             else if k = partner then
               (if partners lexicon partner - {lemma} = {} then None
                else Some (partners lexicon partner - {lemma}))
             else map_of lexicon k)) \<and>
         (distinct (map fst lexicon) \<longrightarrow> distinct (map fst lexicon'))"
  using assms
  by (auto simp: remove_partner_def set_discard_def map_of_prune update_conv' partners_def
                 distinct_prune distinct_update
           split: sum.splits option.splits if_splits)

subsection \<open>Invariants of the lexicon\<close>

lemma symmetric_extract_collocations: "symmetric (extract_collocations e text)"
  unfolding symmetric_def partners_extract_collocations by auto

lemma symmetric_merge:
  "symmetric lexicon \<Longrightarrow> symmetric new \<Longrightarrow> distinct (map fst new) \<Longrightarrow> symmetric (merge lexicon new)"
  unfolding symmetric_def by (simp add: partners_merge)

lemma symmetric_add_partner:
  assumes "symmetric lexicon" "add_partner e lexicon lemma input = (Done, lexicon')"
  shows "symmetric lexicon'"
proof -
  from add_partner_Done [OF assms(2)] obtain p where p: "p \<noteq> lemma"
    and m: "map_of lexicon' =
      (map_of lexicon)(p \<mapsto> insert lemma (partners lexicon p),
                       lemma \<mapsto> insert p (partners lexicon lemma))"
    by blast
  have "partners lexicon' x =
          (if x = lemma then insert p (partners lexicon lemma)
           else if x = p then insert lemma (partners lexicon p) else partners lexicon x)" for x
    unfolding partners_def [of lexicon'] m by (simp add: partners_def)
  with assms(1) p show ?thesis
    unfolding symmetric_def by auto
qed

lemma partners_remove_partner:
  assumes "remove_partner lexicon lemma partner = (Done, lexicon')"
  shows "partners lexicon' x =
          (if x = lemma then partners lexicon lemma - {partner}
           else if x = partner then partners lexicon partner - {lemma} else partners lexicon x)"
  using remove_partner_Done [OF assms]
  by (auto simp: partners_def [of lexicon'] partners_def [of lexicon x])

lemma symmetric_remove_partner:
  assumes "symmetric lexicon" "remove_partner lexicon lemma partner = (Done, lexicon')"
  shows "symmetric lexicon'"
  using assms(1) unfolding symmetric_def partners_remove_partner [OF assms(2)]
  by auto

lemma distinct_merge: "distinct (map fst lexicon) \<Longrightarrow> distinct (map fst (merge lexicon new))"
  by (induction new arbitrary: lexicon) (auto simp: Let_def distinct_update)

lemma merge_no_empty:
  "\<forall>k. map_of lexicon k \<noteq> Some {} \<Longrightarrow> \<forall>(k, ps) \<in> set new. ps \<noteq> {} \<Longrightarrow>
   map_of (merge lexicon new) k \<noteq> Some {}"
proof (induction new arbitrary: lexicon)
  case Nil
  then show ?case by simp
next
  case (Cons entry rest)
  obtain l ps where entry: "entry = (l, ps)" by (cases entry)
  let ?lexicon1 = "if map_of lexicon l = None then AList.update l {} lexicon else lexicon"
  let ?lexicon2 = "AList.update l (partners ?lexicon1 l \<union> ps) ?lexicon1"
  from Cons.prems entry have "ps \<noteq> {}" by simp
  with Cons.prems(1) have "\<forall>k. map_of ?lexicon2 k \<noteq> Some {}"
    by (simp add: update_conv')
  moreover from Cons.prems(2) have "\<forall>(k, ps) \<in> set rest. ps \<noteq> {}" by simp
  ultimately have "map_of (merge ?lexicon2 rest) k \<noteq> Some {}" by (rule Cons.IH)
  then show ?case by (simp add: entry Let_def)
qed

lemma no_empty_entry_merge:
  assumes "no_empty_entry lexicon"
  shows "no_empty_entry (merge lexicon (extract_collocations e text))"
proof -
  have "\<forall>(k, ps) \<in> set (extract_collocations e text). ps \<noteq> {}"
    using long_entries_extract_collocations [of e "text"] by (auto simp: long_entries_def)
  moreover from assms have old: "\<forall>k. map_of lexicon k \<noteq> Some {}"
    unfolding no_empty_entry_def by blast
  ultimately have "map_of (merge lexicon (extract_collocations e text)) k \<noteq> Some {}" for k
    by (intro merge_no_empty)
  moreover from assms have "distinct (map fst (merge lexicon (extract_collocations e text)))"
    unfolding no_empty_entry_def by (intro distinct_merge) blast
  ultimately show ?thesis
    unfolding no_empty_entry_def by blast
qed

lemma no_empty_entry_add_partner:
  assumes "no_empty_entry lexicon" "add_partner e lexicon lemma input = (Done, lexicon')"
  shows "no_empty_entry lexicon'"
proof -
  from add_partner_Done [OF assms(2)] obtain p where
    m: "map_of lexicon' =
      (map_of lexicon)(p \<mapsto> insert lemma (partners lexicon p),
                       lemma \<mapsto> insert p (partners lexicon lemma))"
    and d: "distinct (map fst lexicon) \<longrightarrow> distinct (map fst lexicon')"
    by blast
  from assms(1) have old: "map_of lexicon k \<noteq> Some {}" for k
    unfolding no_empty_entry_def by blast
  have "map_of lexicon' k \<noteq> Some {}" for k
    unfolding m using old [of k] by (simp only: fun_upd_apply split: if_splits) simp
  with d assms(1) show ?thesis
    unfolding no_empty_entry_def by blast
qed

lemma no_empty_entry_remove_partner:
  assumes "no_empty_entry lexicon" "remove_partner lexicon lemma partner = (Done, lexicon')"
  shows "no_empty_entry lexicon'"
proof -
  note r = remove_partner_Done [OF assms(2)]
  from assms(1) have old: "map_of lexicon k \<noteq> Some {}" for k
    unfolding no_empty_entry_def by blast
  have "map_of lexicon' k \<noteq> Some {}" for k
    using r old [of k] by (simp split: if_splits)
  with r assms(1) show ?thesis
    unfolding no_empty_entry_def by blast
qed

subsection \<open>Sequences of operations keep the invariants\<close>

lemma step_cases:
  assumes "step e lexicon x = (st, lexicon')" "\<forall>err. st \<noteq> Raised err"
  shows "lexicon' = lexicon \<or> lexicon' = [] \<or>
         (\<exists>text. lexicon' = merge lexicon (extract_collocations e text)) \<or>
         (\<exists>lemma input. add_partner e lexicon lemma input = (Done, lexicon')) \<or>
         (\<exists>lemma partner. remove_partner lexicon lemma partner = (Done, lexicon'))"
proof (cases x)
  case (Load doc)
  with assms show ?thesis
    by (auto simp: load_file_def extract_document_def split: if_splits)
next
  case (Add w input)
  with assms show ?thesis
    by (cases st) (auto dest: add_partner_Warned simp: add_partner_not_Caught)
next
  case (Remove w partner)
  with assms show ?thesis
    by (cases st) (auto simp: remove_partner_not_Warned remove_partner_not_Caught)
next
  case Clear
  with assms show ?thesis
    by (auto simp: clear_all_def split: if_splits)
qed

lemma run_invariant:
  assumes "run e lexicon ops = Some lexicon'" "P lexicon" "P []"
    and "\<And>l text. P l \<Longrightarrow> P (merge l (extract_collocations e text))"
    and "\<And>l lemma input l'. P l \<Longrightarrow> add_partner e l lemma input = (Done, l') \<Longrightarrow> P l'"
    and "\<And>l lemma partner l'. P l \<Longrightarrow> remove_partner l lemma partner = (Done, l') \<Longrightarrow> P l'"
  shows "P lexicon'"
  using assms(1,2)
proof (induction ops arbitrary: lexicon)
  case Nil
  then show ?case by simp
next
  case (Cons x xs)
  obtain st l where st: "step e lexicon x = (st, l)" by (cases "step e lexicon x")
  with Cons.prems(1) have ok: "\<forall>err. st \<noteq> Raised err" and rest: "run e l xs = Some lexicon'"
    by (auto split: status.splits)
  from step_cases [OF st ok] Cons.prems(2) assms(3-6) have "P l" by blast
  with rest show ?case by (rule Cons.IH)
qed

lemma run_symmetric: "run e [] ops = Some lexicon \<Longrightarrow> symmetric lexicon"
proof (erule run_invariant)
  show "symmetric []" by (simp add: symmetric_def partners_Nil)
  then show "symmetric []" .
next
  fix l doc assume "symmetric l"
  then show "symmetric (merge l (extract_collocations e doc))"
    by (intro symmetric_merge symmetric_extract_collocations distinct_extract_collocations)
qed (auto intro: symmetric_add_partner symmetric_remove_partner)

lemma run_no_empty_entry: "run e [] ops = Some lexicon \<Longrightarrow> no_empty_entry lexicon"
proof (erule run_invariant)
  show "no_empty_entry []" by (simp add: no_empty_entry_def)
  then show "no_empty_entry []" .
qed (auto intro: no_empty_entry_merge no_empty_entry_add_partner no_empty_entry_remove_partner)

subsection \<open>The concrete environment, evaluated\<close>

lemmas words = koshka_def spit_def spat_def sobaka_def bezhit_def bezhat_def kniga_def koty_def
  kot_def vsekh_def ves_def word_v_def dome_def word_dom_def zhivyot_def zhit_def tolko_def
  vchera_def

lemmas ru_defs = ru_env_def ru_lower_def ru_sent_tokenize_def ru_findall_words_def
  ru_morph_parse_def ru_stopwords_def analysis_def sentence1_def sentence2_def sentence3_def
  sentence4_def document1_def document2_def document3_def

lemmas extract_defs = sentences_def sentence_lemmas_def word_lemma_def max_score_def
  russian_stopwords_def extra_stopwords_def extract_artifacts_def content_POS_def

lemma sentences_document1: "sentences ru_env document1 = [sentence1, sentence2]"
  by (simp add: sentences_def ru_defs words)

lemma sentences_document2: "sentences ru_env document2 = [sentence3]"
  by (simp add: sentences_def ru_defs words)

lemma sentences_document3: "sentences ru_env document3 = [sentence4]"
  by (simp add: sentences_def ru_defs words)

lemma lemmas_sentence1: "sentence_lemmas ru_env sentence1 = [koshka, spat]"
  by (simp add: extract_defs ru_defs words)

lemma lemmas_sentence2: "sentence_lemmas ru_env sentence2 = [sobaka, bezhat]"
  by (simp add: extract_defs ru_defs words)

lemma lemmas_sentence3: "sentence_lemmas ru_env sentence3 = [word_dom, zhit, koshka]"
  by (simp add: extract_defs ru_defs words)

lemma lemmas_sentence4: "sentence_lemmas ru_env sentence4 = [word_dom]"
  by (simp add: extract_defs ru_defs words)

lemma extract_document1: "extract_collocations ru_env document1 = lexicon1"
  unfolding extract_collocations_def sentences_document1
  by (simp add: lemmas_sentence1 lemmas_sentence2 defaultdict_add_def partners_def lexicon1_def
      words)

lemma not_blank_document1: "strip document1 \<noteq> []"
  by (simp add: strip_def isspace_def ru_defs words)

lemma load_document1: "load_file ru_env [] document1 = (Done, lexicon1)"
proof -
  have "merge [] lexicon1 = lexicon1"
    unfolding lexicon1_def
    by (simp add: merge_Cons partners_def words del: merge.simps(2))
  then show ?thesis
    by (simp add: load_file_def extract_document_def not_blank_document1 extract_document1)
qed

lemmas add_defs = add_partner_def set_add_def russian_stopwords_def extra_stopwords_def
  add_partner_artifacts_def max_score_def strip_def isspace_def

lemma add_koty: "add_partner ru_env lexicon1 koshka koty = (Done, lexicon2)"
  by (simp add: add_defs ru_defs lexicon1_def lexicon2_def words Let_def)

lemma remove_spat: "remove_partner lexicon2 koshka spat = (Done, lexicon3)"
  by (simp add: remove_partner_def set_discard_def prune_def lexicon2_def lexicon3_def words
      insert_Diff_if)

lemma run_operations1: "run ru_env [] operations1 = Some lexicon3"
  by (simp add: operations1_def load_document1 add_koty remove_spat)

subsection \<open>Adding a partner\<close>

lemma add_partner_artifacts_stopwords: "add_partner_artifacts \<subseteq> russian_stopwords e"
  by (simp add: add_partner_artifacts_def russian_stopwords_def extra_stopwords_def)

lemma add_partner_Warned_iff:
  "(\<exists>w. fst (add_partner e lexicon lemma input) = Warned w) \<longleftrightarrow>
     length (lower e (strip input)) < 4 \<or>
     (case morph_parse e (lower e (strip input)) of
        [] \<Rightarrow> True
      | p # ps \<Rightarrow> lower e (normal_form (max_score p ps)) \<in> russian_stopwords e \<or>
                 lower e (normal_form (max_score p ps)) = lemma)"
  using add_partner_artifacts_stopwords [of e]
  by (auto simp: add_partner_def Let_def split: list.splits sum.splits)

lemma add_partner_accepts:
  assumes "4 \<le> length (lower e (strip input))"
    and "morph_parse e (lower e (strip input)) = p # ps"
    and "partner_lemma = lower e (normal_form (max_score p ps))"
    and "partner_lemma \<notin> russian_stopwords e" and "partner_lemma \<noteq> lemma"
  shows "add_partner e lexicon lemma input =
     (let d1 = (if map_of lexicon partner_lemma = None
                then AList.update partner_lemma {} lexicon else lexicon)
      in case set_add d1 lemma partner_lemma of
           Inl err \<Rightarrow> (Raised err, d1)
         | Inr d2 \<Rightarrow>
             (case set_add d2 partner_lemma lemma of
                Inl err \<Rightarrow> (Raised err, d2)
              | Inr d3 \<Rightarrow> (Done, d3)))"
proof -
  from assms(4) add_partner_artifacts_stopwords [of e]
  have "partner_lemma \<notin> add_partner_artifacts" by blast
  with assms show ?thesis
    by (auto simp: add_partner_def Let_def)
qed

lemma max_score_map:
  assumes "\<And>q. score (f q) = score q"
  shows "max_score (f p) (map f ps) = f (max_score p ps)"
  unfolding max_score_def
  by (induction ps arbitrary: p) (simp_all add: assms)

lemma russian_stopwords_morph_parse:
  "russian_stopwords (e\<lparr>morph_parse := m\<rparr>) = russian_stopwords e"
  by (simp add: russian_stopwords_def)

lemma add_partner_ignores_tag:
  "add_partner (e\<lparr>morph_parse := \<lambda>w. map (\<lambda>q. q\<lparr>tag_POS := t\<rparr>) (morph_parse e w)\<rparr>)
     lexicon lemma input = add_partner e lexicon lemma input"
proof (cases "morph_parse e (lower e (strip input))")
  case Nil
  then show ?thesis
    by (simp add: add_partner_def Let_def russian_stopwords_morph_parse)
next
  case (Cons p ps)
  have "normal_form (max_score (p\<lparr>tag_POS := t\<rparr>) (map (\<lambda>q. q\<lparr>tag_POS := t\<rparr>) ps))
        = normal_form (max_score p ps)"
    by (simp add: max_score_map [where f = "\<lambda>q. q\<lparr>tag_POS := t\<rparr>"])
  with Cons show ?thesis
    by (simp add: add_partner_def Let_def russian_stopwords_morph_parse
        cong del: sum.case_cong_weak)
qed

lemma add_vsekh: "fst (add_partner ru_env lexicon1 koshka vsekh) = Done"
  by (simp add: add_defs ru_defs lexicon1_def words Let_def)

lemma add_koty_empty: "add_partner ru_env [] kniga koty = (Raised KeyError, [(kot, {})])"
  by (simp add: add_defs ru_defs words Let_def)

lemma parse_koty: "morph_parse ru_env (lower ru_env (strip koty)) = [analysis kot ''NOUN'' 1]"
  by (simp add: strip_def isspace_def ru_defs words)

lemma parse_vchera:
  "morph_parse ru_env (lower ru_env (strip vchera)) = [analysis vchera ''ADVB'' 1]"
  by (simp add: strip_def isspace_def ru_defs words)

subsection \<open>Exporting\<close>

lemma save_lexicon_Some:
  "lexicon \<noteq> [] \<Longrightarrow>
   save_lexicon lexicon = Some (map (\<lambda>(k, v). (k, sorted_list_of_set v)) lexicon)"
  by (simp add: save_lexicon_def)

lemma map_fst_export: "map fst (map (\<lambda>(k, v). (k, f v)) d) = map fst d"
  by (induction d) auto

section \<open>The claims\<close>

text \<open>
  Claim C1 (symmetry invariant). In every lexicon reached from the empty lexicon by a
  sequence of loads (merges of an extraction result), additions of a partner, removals
  of a partner and clearings, \<open>b\<close> is a partner of \<open>a\<close> if and only if \<open>a\<close> is a partner
  of \<open>b\<close>.
\<close>

theorem symmetry_invariant:
  assumes "run e [] ops = Some lexicon"
  shows "b \<in> partners lexicon a \<longleftrightarrow> a \<in> partners lexicon b"
  using run_symmetric [OF assms] unfolding symmetric_def by blast

theorem symmetry_invariant_witness:
  "run ru_env [] operations1 = Some lexicon3 \<and>
   kot \<in> partners lexicon3 koshka \<and> koshka \<in> partners lexicon3 kot"
proof -
  have "kot \<in> partners lexicon3 koshka"
    by (simp add: partners_def lexicon3_def)
  with symmetry_invariant [OF run_operations1, of kot koshka] run_operations1
  show ?thesis by blast
qed

text \<open>
  Claim C6 (idempotent merge). Loading the same document twice in a row leaves the
  lexicon exactly as loading it once does, and a load removes nothing from an existing
  partner set.
\<close>

theorem merge_idempotent:
  "snd (load_file e (snd (load_file e lexicon text)) text) = snd (load_file e lexicon text) \<and>
   partners lexicon k \<subseteq> partners (snd (load_file e lexicon text)) k"
  by (simp add: load_file_def extract_document_def merge_idem merge_keeps)

text \<open>
  Claim C7 (no isolated nodes, pruning on removal). In every lexicon reached from the
  empty one each entry has a non-empty partner set (and each key one entry); a completed
  removal leaves each of the two end points either without a key or with the non-empty
  rest of its partner set, and every other key as it was; and removing the link of the
  lexicon that holds only the edge between \<open>A\<close> and \<open>B\<close> gives the empty lexicon.
\<close>

theorem no_isolated_nodes:
  "(run e [] ops = Some lexicon \<longrightarrow>
      distinct (map fst lexicon) \<and> (\<forall>(k, ps) \<in> set lexicon. ps \<noteq> {})) \<and>
   (remove_partner lexicon0 lemma partner = (Done, lexicon') \<longrightarrow>
      map_of lexicon' lemma =
        (if partners lexicon0 lemma - {partner} = {} then None
         else Some (partners lexicon0 lemma - {partner})) \<and>
      map_of lexicon' partner =
        (if partners lexicon0 partner - {lemma} = {} then None
         else Some (partners lexicon0 partner - {lemma})) \<and>
      (k \<noteq> lemma \<and> k \<noteq> partner \<longrightarrow> map_of lexicon' k = map_of lexicon0 k)) \<and>
   (A \<noteq> B \<longrightarrow> remove_partner [(A, {B}), (B, {A})] A B = (Done, []))"
proof (intro conjI impI)
  assume "run e [] ops = Some lexicon"
  then have inv: "no_empty_entry lexicon" by (rule run_no_empty_entry)
  then show "distinct (map fst lexicon)" by (simp add: no_empty_entry_def)
  show "\<forall>(k, ps) \<in> set lexicon. ps \<noteq> {}"
  proof (clarify)
    fix k assume "(k, {}) \<in> set lexicon"
    with inv have "map_of lexicon k = Some {}"
      unfolding no_empty_entry_def by (intro map_of_is_SomeI) blast+
    with inv show False unfolding no_empty_entry_def by blast
  qed
next
  assume r: "remove_partner lexicon0 lemma partner = (Done, lexicon')"
  note d = remove_partner_Done [OF r]
  from d show "map_of lexicon' lemma =
        (if partners lexicon0 lemma - {partner} = {} then None
         else Some (partners lexicon0 lemma - {partner}))"
    by simp
  from d show "map_of lexicon' partner =
        (if partners lexicon0 partner - {lemma} = {} then None
         else Some (partners lexicon0 partner - {lemma}))"
    by (cases "partner = lemma") simp_all
  assume "k \<noteq> lemma \<and> k \<noteq> partner"
  with d show "map_of lexicon' k = map_of lexicon0 k" by simp
next
  assume "A \<noteq> B"
  then show "remove_partner [(A, {B}), (B, {A})] A B = (Done, [])"
    by (auto simp: remove_partner_def set_discard_def prune_def)
qed

theorem no_isolated_nodes_witness:
  "run ru_env [] operations1 = Some lexicon3 \<and>
   distinct (map fst lexicon3) \<and> {} \<notin> snd ` set lexicon3 \<and>
   remove_partner lexicon2 koshka spat = (Done, lexicon3) \<and>
   map_of lexicon3 spat = None \<and> map_of lexicon3 koshka = Some {kot} \<and>
   koshka \<noteq> spat \<and> remove_partner [(koshka, {spat}), (spat, {koshka})] koshka spat = (Done, [])"
proof -
  note claim =
    no_isolated_nodes [of ru_env operations1 lexicon3 lexicon2 koshka spat lexicon3 kot koshka spat]
  have ne: "koshka \<noteq> spat" by (simp add: words)
  from claim run_operations1
  have "distinct (map fst lexicon3)" and "\<forall>(k, ps) \<in> set lexicon3. ps \<noteq> {}"
    by blast+
  then have "distinct (map fst lexicon3)" and "{} \<notin> snd ` set lexicon3"
    by force+
  moreover from claim remove_spat
  have "map_of lexicon3 koshka =
          (if partners lexicon2 koshka - {spat} = {} then None
           else Some (partners lexicon2 koshka - {spat}))"
    and "map_of lexicon3 spat =
          (if partners lexicon2 spat - {koshka} = {} then None
           else Some (partners lexicon2 spat - {koshka}))"
    by blast+
  then have "map_of lexicon3 koshka = Some {kot}" and "map_of lexicon3 spat = None"
    by (simp_all add: partners_def lexicon2_def words insert_Diff_if)
  moreover from claim ne
  have "remove_partner [(koshka, {spat}), (spat, {koshka})] koshka spat = (Done, [])"
    by blast
  ultimately show ?thesis
    using run_operations1 remove_spat ne by blast
qed

text \<open>
  Claim C10 (removal is safe). If the lexicon is symmetric and the partner is in the
  partner set of the lemma, both are keys of the lexicon, so neither indexing of
  \<open>remove_partner\<close> raises and the removal completes.
\<close>

theorem remove_partner_no_KeyError:
  assumes "\<forall>a b. b \<in> partners lexicon a \<longleftrightarrow> a \<in> partners lexicon b"
    and "partner \<in> partners lexicon lemma"
  shows "map_of lexicon lemma \<noteq> None \<and> map_of lexicon partner \<noteq> None \<and>
         (\<exists>lexicon'. remove_partner lexicon lemma partner = (Done, lexicon'))"
proof -
  from assms have "lemma \<in> partners lexicon partner" by blast
  then obtain t where t: "map_of lexicon partner = Some t"
    by (auto simp: partners_def split: option.splits)
  from assms(2) obtain s where s: "map_of lexicon lemma = Some s"
    by (auto simp: partners_def split: option.splits)
  from s t show ?thesis
    by (simp add: remove_partner_def set_discard_def update_conv')
qed

theorem remove_partner_no_KeyError_witness:
  "(\<forall>a b. b \<in> partners lexicon1 a \<longleftrightarrow> a \<in> partners lexicon1 b) \<and>
   spat \<in> partners lexicon1 koshka \<and>
   (\<exists>lexicon'. remove_partner lexicon1 koshka spat = (Done, lexicon'))"
proof -
  have sym: "\<forall>a b. b \<in> partners lexicon1 a \<longleftrightarrow> a \<in> partners lexicon1 b"
    by (auto simp: partners_def lexicon1_def words split: if_splits)
  have mem: "spat \<in> partners lexicon1 koshka"
    by (simp add: partners_def lexicon1_def)
  from remove_partner_no_KeyError [OF sym mem] sym mem show ?thesis by blast
qed

text \<open>
  Claim C2 (sentence-boundary isolation). The candidate mapping holds no edge between
  two lemmas that no single sentence of the document produces together: every edge
  comes from one sentence. For the document "Koshka spit. Sobaka bezhit." no lemma of
  the first sentence is linked to a lemma of the second.
\<close>

theorem sentence_boundary_isolation:
  assumes "\<forall>sent \<in> set (sentences e text).
             \<not> (a \<in> set (sentence_lemmas e sent) \<and> b \<in> set (sentence_lemmas e sent))"
  shows "b \<notin> partners (extract_collocations e text) a"
proof
  assume "b \<in> partners (extract_collocations e text) a"
  then obtain sent where sent: "sent \<in> set (sentences e text)"
    and pair: "(a, b) \<in> set (consecutive_pairs (sentence_lemmas e sent)) \<or>
               (b, a) \<in> set (consecutive_pairs (sentence_lemmas e sent))"
    unfolding partners_extract_collocations by blast
  from pair have "a \<in> set (sentence_lemmas e sent) \<and> b \<in> set (sentence_lemmas e sent)"
    by (auto dest: consecutive_pairs_members)
  with sent assms show False by blast
qed

theorem sentence_boundary_isolation_witness:
  "sentences ru_env document1 = [sentence1, sentence2] \<and>
   sentence_lemmas ru_env sentence1 = [koshka, spat] \<and>
   sentence_lemmas ru_env sentence2 = [sobaka, bezhat] \<and>
   sobaka \<notin> partners (extract_collocations ru_env document1) koshka \<and>
   bezhat \<notin> partners (extract_collocations ru_env document1) koshka \<and>
   sobaka \<notin> partners (extract_collocations ru_env document1) spat \<and>
   bezhat \<notin> partners (extract_collocations ru_env document1) spat \<and>
   koshka \<notin> partners (extract_collocations ru_env document1) sobaka \<and>
   spat \<notin> partners (extract_collocations ru_env document1) sobaka \<and>
   koshka \<notin> partners (extract_collocations ru_env document1) bezhat \<and>
   spat \<notin> partners (extract_collocations ru_env document1) bezhat"
proof -
  have apart: "\<forall>sent \<in> set (sentences ru_env document1).
      \<not> (a \<in> set (sentence_lemmas ru_env sent) \<and> b \<in> set (sentence_lemmas ru_env sent))"
    if "a \<in> {koshka, spat} \<and> b \<in> {sobaka, bezhat} \<or> a \<in> {sobaka, bezhat} \<and> b \<in> {koshka, spat}"
    for a b
    using that unfolding sentences_document1
    by (auto simp: lemmas_sentence1 lemmas_sentence2 words)
  show ?thesis
    using sentence_boundary_isolation [OF apart] sentences_document1 lemmas_sentence1
      lemmas_sentence2
    by simp
qed

text \<open>
  Claim C3 (error contract of extraction). The document is refused with the content
  error exactly when it is empty or consists of white space only; every other document
  gives a candidate mapping, and the mapping is empty when no sentence has a consecutive
  pair of distinct lemmas of length at least 4.
\<close>

theorem extract_error_contract:
  "(extract_document e text = Inl ValueError \<longleftrightarrow> (\<forall>c \<in> set text. isspace c)) \<and>
   ((\<exists>c \<in> set text. \<not> isspace c) \<longrightarrow>
      extract_document e text = Inr (extract_collocations e text)) \<and>
   ((\<forall>sent \<in> set (sentences e text).
       \<forall>(a, b) \<in> set (consecutive_pairs (sentence_lemmas e sent)).
         \<not> (a \<noteq> b \<and> 4 \<le> length a \<and> 4 \<le> length b)) \<longrightarrow>
      extract_collocations e text = [])"
proof (intro conjI impI)
  show "extract_document e text = Inl ValueError \<longleftrightarrow> (\<forall>c \<in> set text. isspace c)"
    by (simp add: extract_document_def strip_empty_iff)
next
  assume "\<exists>c \<in> set text. \<not> isspace c"
  then have "strip text \<noteq> []" by (simp add: strip_empty_iff)
  then show "extract_document e text = Inr (extract_collocations e text)"
    by (simp add: extract_document_def)
next
  assume "\<forall>sent \<in> set (sentences e text).
       \<forall>(a, b) \<in> set (consecutive_pairs (sentence_lemmas e sent)).
         \<not> (a \<noteq> b \<and> 4 \<le> length a \<and> 4 \<le> length b)"
  then show "extract_collocations e text = []"
    unfolding extract_collocations_def by (rule foldl_bigrams_no_pairs)
qed

theorem extract_error_contract_witness:
  "extract_document ru_env [] = Inl ValueError \<and>
   extract_document ru_env [space, 9, 10, space] = Inl ValueError \<and>
   extract_document ru_env document3 = Inr [] \<and>
   extract_document ru_env document1 = Inr lexicon1"
proof -
  have blank: "\<forall>c \<in> set [space, 9, 10, space]. isspace c"
    by (simp add: isspace_def)
  have full: "\<exists>c \<in> set document3. \<not> isspace c" "\<exists>c \<in> set document1. \<not> isspace c"
    by (simp_all add: isspace_def ru_defs words)
  have none: "\<forall>sent \<in> set (sentences ru_env document3).
       \<forall>(a, b) \<in> set (consecutive_pairs (sentence_lemmas ru_env sent)).
         \<not> (a \<noteq> b \<and> 4 \<le> length a \<and> 4 \<le> length b)"
    by (simp add: sentences_document3 lemmas_sentence4 consecutive_pairs_simps)
  from extract_error_contract [of ru_env "[]"]
  have "extract_document ru_env [] = Inl ValueError" by simp
  moreover from extract_error_contract [of ru_env "[space, 9, 10, space]"] blank
  have "extract_document ru_env [space, 9, 10, space] = Inl ValueError" by blast
  moreover from extract_error_contract [of ru_env document3] full(1) none
  have "extract_document ru_env document3 = Inr []" by simp
  moreover from extract_error_contract [of ru_env document1] full(2)
  have "extract_document ru_env document1 = Inr lexicon1" by (simp add: extract_document1)
  ultimately show ?thesis by blast
qed

text \<open>
  Claim C8 (pair emission). The lemma sequence of a sentence is the sequence of the
  lemmas of its words that pass the filter, in order, the other words being absent.
  \<open>b\<close> is a partner of \<open>a\<close> in the candidate mapping exactly when some sentence has
  \<open>a\<close> and \<open>b\<close> as a consecutive pair of its lemma sequence, in either order, with
  \<open>a \<noteq> b\<close> and both of length at least 4. Every key and every member of a partner set
  of the candidate mapping has length at least 4.
\<close>

theorem pair_emission_rule:
  "(b \<in> partners (extract_collocations e text) a \<longleftrightarrow>
      (\<exists>sent \<in> set (sentences e text).
         ((a, b) \<in> set (consecutive_pairs (sentence_lemmas e sent)) \<or>
          (b, a) \<in> set (consecutive_pairs (sentence_lemmas e sent))) \<and>
         a \<noteq> b \<and> 4 \<le> length a \<and> 4 \<le> length b)) \<and>
   sentence_lemmas e sent = List.map_filter (word_lemma e) (re_findall_words e sent) \<and>
   (\<forall>(k, ps) \<in> set (extract_collocations e text).
      4 \<le> length k \<and> (\<forall>p \<in> ps. 4 \<le> length p))"
proof (intro conjI)
  show "b \<in> partners (extract_collocations e text) a \<longleftrightarrow>
      (\<exists>sent \<in> set (sentences e text).
         ((a, b) \<in> set (consecutive_pairs (sentence_lemmas e sent)) \<or>
          (b, a) \<in> set (consecutive_pairs (sentence_lemmas e sent))) \<and>
         a \<noteq> b \<and> 4 \<le> length a \<and> 4 \<le> length b)"
    unfolding partners_extract_collocations by blast
  show "sentence_lemmas e sent = List.map_filter (word_lemma e) (re_findall_words e sent)"
    by (simp add: sentence_lemmas_def collect_lemmas_map_filter)
  show "\<forall>(k, ps) \<in> set (extract_collocations e text).
      4 \<le> length k \<and> (\<forall>p \<in> ps. 4 \<le> length p)"
    using long_entries_extract_collocations [of e "text"]
    unfolding long_entries_def by blast
qed

theorem pair_emission_rule_witness:
  "re_findall_words ru_env sentence3 = [word_v, dome, zhivyot, tolko, koshka] \<and>
   sentence_lemmas ru_env sentence3 = [word_dom, zhit, koshka] \<and>
   koshka \<in> partners (extract_collocations ru_env document2) zhit \<and>
   zhit \<in> partners (extract_collocations ru_env document2) koshka \<and>
   zhit \<notin> partners (extract_collocations ru_env document2) word_dom \<and>
   word_dom \<notin> partners (extract_collocations ru_env document2) zhit \<and>
   koshka \<notin> partners (extract_collocations ru_env document2) word_dom \<and>
   fst ` set (extract_collocations ru_env document2) \<subseteq> {k. 4 \<le> length k}"
proof -
  have words3: "re_findall_words ru_env sentence3 = [word_v, dome, zhivyot, tolko, koshka]"
    by (simp add: ru_defs words)
  note edge = pair_emission_rule [of _ ru_env document2 _ sentence3,
      unfolded sentences_document2, THEN conjunct1]
  have "koshka \<in> partners (extract_collocations ru_env document2) zhit"
    and "zhit \<in> partners (extract_collocations ru_env document2) koshka"
    and "zhit \<notin> partners (extract_collocations ru_env document2) word_dom"
    and "word_dom \<notin> partners (extract_collocations ru_env document2) zhit"
    and "koshka \<notin> partners (extract_collocations ru_env document2) word_dom"
    unfolding edge by (simp_all add: lemmas_sentence3 consecutive_pairs_simps words)
  moreover from pair_emission_rule [of koshka ru_env document2 zhit sentence3]
  have "fst ` set (extract_collocations ru_env document2) \<subseteq> {k. 4 \<le> length k}"
    by auto
  ultimately show ?thesis
    using words3 lemmas_sentence3 by blast
qed

text \<open>
  Claim C4 (validation of an added partner), as the code has it. The addition is
  refused with a warning, the lexicon unchanged, exactly when the typed partner text,
  stripped and lower-cased, has fewer than 4 characters, or the analyser returns no
  analysis for it, or its normalized form is a stop word or artefact, or its normalized
  form is the lemma itself. The length that is checked is that of the typed text, not
  that of the normalized form, and only the normalized form is looked up among the stop
  words.
\<close>

theorem add_partner_validation:
  "((\<exists>w. fst (add_partner e lexicon lemma input) = Warned w) \<longleftrightarrow>
      length (lower e (strip input)) < 4 \<or>
      (case morph_parse e (lower e (strip input)) of
         [] \<Rightarrow> True
       | p # ps \<Rightarrow> lower e (normal_form (max_score p ps)) \<in> russian_stopwords e \<or>
                  lower e (normal_form (max_score p ps)) = lemma)) \<and>
   ((\<exists>w. fst (add_partner e lexicon lemma input) = Warned w) \<longrightarrow>
      snd (add_partner e lexicon lemma input) = lexicon)"
proof (intro conjI impI)
  show "(\<exists>w. fst (add_partner e lexicon lemma input) = Warned w) \<longleftrightarrow>
      length (lower e (strip input)) < 4 \<or>
      (case morph_parse e (lower e (strip input)) of
         [] \<Rightarrow> True
       | p # ps \<Rightarrow> lower e (normal_form (max_score p ps)) \<in> russian_stopwords e \<or>
                  lower e (normal_form (max_score p ps)) = lemma)"
    by (rule add_partner_Warned_iff)
next
  assume "\<exists>w. fst (add_partner e lexicon lemma input) = Warned w"
  then obtain w where "fst (add_partner e lexicon lemma input) = Warned w" ..
  then have "add_partner e lexicon lemma input =
               (Warned w, snd (add_partner e lexicon lemma input))"
    by (cases "add_partner e lexicon lemma input") simp
  then show "snd (add_partner e lexicon lemma input) = lexicon"
    by (rule add_partner_Warned)
qed

theorem add_partner_validation_witness:
  "(\<exists>w. fst (add_partner ru_env lexicon1 kniga kniga) = Warned w) \<and>
   snd (add_partner ru_env lexicon1 kniga kniga) = lexicon1 \<and>
   (\<exists>w. fst (add_partner ru_env lexicon1 koshka tolko) = Warned w) \<and>
   snd (add_partner ru_env lexicon1 koshka tolko) = lexicon1 \<and>
   (\<exists>w. fst (add_partner ru_env lexicon1 koshka kot) = Warned w) \<and>
   snd (add_partner ru_env lexicon1 koshka kot) = lexicon1 \<and>
   \<not> (\<exists>w. fst (add_partner ru_env lexicon1 koshka koty) = Warned w)"
proof -
  have self: "\<exists>w. fst (add_partner ru_env lexicon1 kniga kniga) = Warned w"
    unfolding add_partner_validation [THEN conjunct1]
    by (simp add: strip_def isspace_def max_score_def ru_defs words)
  have stop: "\<exists>w. fst (add_partner ru_env lexicon1 koshka tolko) = Warned w"
    unfolding add_partner_validation [THEN conjunct1]
    by (simp add: strip_def isspace_def max_score_def russian_stopwords_def ru_defs words)
  have short: "\<exists>w. fst (add_partner ru_env lexicon1 koshka kot) = Warned w"
    unfolding add_partner_validation [THEN conjunct1]
    by (simp add: strip_def isspace_def ru_defs words)
  have long: "\<not> (\<exists>w. fst (add_partner ru_env lexicon1 koshka koty) = Warned w)"
    unfolding add_partner_validation [THEN conjunct1]
    by (simp add: strip_def isspace_def max_score_def russian_stopwords_def
        extra_stopwords_def ru_defs words)
  from self stop short long
    add_partner_validation [of ru_env lexicon1 kniga kniga]
    add_partner_validation [of ru_env lexicon1 koshka tolko]
    add_partner_validation [of ru_env lexicon1 koshka kot]
  show ?thesis by blast
qed

text \<open>
  Against C4 as stated: "koty" has 4 characters and the normalized form "kot" has 3, and
  the addition is carried out; "vsekh" is a stop word, its normalized form "ves" is
  not, and the addition is carried out.
\<close>

theorem add_partner_validation_counterexample:
  "morph_parse ru_env (lower ru_env (strip koty)) = [analysis kot ''NOUN'' 1] \<and>
   length (lower ru_env (normal_form (analysis kot ''NOUN'' 1))) < 4 \<and>
   add_partner ru_env lexicon1 koshka koty = (Done, lexicon2) \<and>
   vsekh \<in> russian_stopwords ru_env \<and>
   fst (add_partner ru_env lexicon1 koshka vsekh) = Done"
  by (simp add: parse_koty add_koty add_vsekh)
     (simp add: russian_stopwords_def ru_defs words)

text \<open>
  Claim C5 (a successful addition), as the code has it. When the validation passes and
  the lemma is a key of the lexicon, the addition completes: the normalized partner
  joins the partner set of the lemma and the lemma that of the partner, the key of the
  partner is created when absent, nothing else changes. The part-of-speech tags of the
  analyses play no role in the result.
\<close>

theorem add_partner_success:
  assumes "4 \<le> length (lower e (strip input))"
    and "morph_parse e (lower e (strip input)) = p # ps"
    and "partner_lemma = lower e (normal_form (max_score p ps))"
    and "partner_lemma \<notin> russian_stopwords e" and "partner_lemma \<noteq> lemma"
    and "map_of lexicon lemma = Some s"
  shows "\<exists>lexicon'. add_partner e lexicon lemma input = (Done, lexicon') \<and>
           map_of lexicon' lemma = Some (insert partner_lemma s) \<and>
           map_of lexicon' partner_lemma = Some (insert lemma (partners lexicon partner_lemma)) \<and>
           (\<forall>k. k \<noteq> lemma \<and> k \<noteq> partner_lemma \<longrightarrow> map_of lexicon' k = map_of lexicon k) \<and>
           map fst lexicon' =
             (if map_of lexicon partner_lemma = None then map fst lexicon @ [partner_lemma]
              else map fst lexicon) \<and>
           add_partner
             (e\<lparr>morph_parse := \<lambda>w. map (\<lambda>q. q\<lparr>tag_POS := t\<rparr>) (morph_parse e w)\<rparr>)
             lexicon lemma input = (Done, lexicon')"
proof -
  let ?lexicon1 = "if map_of lexicon partner_lemma = None
                   then AList.update partner_lemma {} lexicon else lexicon"
  let ?lexicon2 = "AList.update lemma (insert partner_lemma s) ?lexicon1"
  let ?lexicon3 = "AList.update partner_lemma (insert lemma (partners lexicon partner_lemma)) ?lexicon2"
  have one: "map_of ?lexicon1 lemma = Some s"
    using assms(5,6) by (simp add: update_conv')
  have two: "map_of ?lexicon2 partner_lemma = Some (partners lexicon partner_lemma)"
    using assms(5) by (auto simp: update_conv' partners_def)
  have completes: "add_partner e lexicon lemma input = (Done, ?lexicon3)"
    unfolding add_partner_accepts [OF assms(1-5)] Let_def
    by (simp add: set_add_def one two)
  have keys1: "map fst ?lexicon1 =
     (if map_of lexicon partner_lemma = None then map fst lexicon @ [partner_lemma]
      else map fst lexicon)"
    by (simp add: update_keys map_of_eq_None_iff)
  have "lemma \<in> fst ` set ?lexicon1"
    using one by (metis domI dom_map_of_conv_image_fst)
  then have "lemma \<in> set (map fst ?lexicon1)"
    by (simp only: set_map)
  then have keys2: "map fst ?lexicon2 = map fst ?lexicon1"
    by (simp only: update_keys if_True)
  have "partner_lemma \<in> fst ` set ?lexicon2"
    using two by (metis domI dom_map_of_conv_image_fst)
  then have "partner_lemma \<in> set (map fst ?lexicon2)"
    by (simp only: set_map)
  then have "map fst ?lexicon3 = map fst ?lexicon2"
    by (simp only: update_keys if_True)
  with keys1 keys2 have keys: "map fst ?lexicon3 =
     (if map_of lexicon partner_lemma = None then map fst lexicon @ [partner_lemma]
      else map fst lexicon)"
    by simp
  show ?thesis
    unfolding add_partner_ignores_tag completes
    using assms(5) by (intro exI [of _ ?lexicon3] conjI keys) (simp_all add: update_conv')
qed

theorem add_partner_success_witness:
  "4 \<le> length (lower ru_env (strip vchera)) \<and>
   morph_parse ru_env (lower ru_env (strip vchera)) = [analysis vchera ''ADVB'' 1] \<and>
   ''ADVB'' \<notin> content_POS \<and>
   vchera \<notin> russian_stopwords ru_env \<and> vchera \<noteq> koshka \<and>
   map_of lexicon1 koshka = Some {spat} \<and>
   (\<exists>lexicon'. add_partner ru_env lexicon1 koshka vchera = (Done, lexicon') \<and>
      map_of lexicon' koshka = Some {vchera, spat} \<and>
      map_of lexicon' vchera = Some {koshka} \<and>
      map fst lexicon' = [koshka, spat, sobaka, bezhat, vchera])"
proof -
  have long: "4 \<le> length (lower ru_env (strip vchera))"
    by (simp add: strip_def isspace_def ru_defs words)
  have norm: "vchera = lower ru_env (normal_form (max_score (analysis vchera ''ADVB'' 1) []))"
    by (simp add: max_score_def ru_defs words)
  have stop: "vchera \<notin> russian_stopwords ru_env"
    by (simp add: russian_stopwords_def extra_stopwords_def ru_defs words)
  have other: "vchera \<noteq> koshka" by (simp add: words)
  have key: "map_of lexicon1 koshka = Some {spat}" by (simp add: lexicon1_def)
  have new: "map_of lexicon1 vchera = None" "partners lexicon1 vchera = {}"
    by (simp_all add: partners_def lexicon1_def words)
  have keys: "map fst lexicon1 = [koshka, spat, sobaka, bezhat]" by (simp add: lexicon1_def)
  have tag: "''ADVB'' \<notin> content_POS" by (simp add: content_POS_def)
  from add_partner_success [OF long parse_vchera norm stop other key, of None]
  show ?thesis
    unfolding new keys using long parse_vchera stop other key tag by auto
qed

text \<open>
  Against C5 as stated: with a lemma that is not a key the validation passes, the key of
  the lemma is not created, and indexing the lexicon with it raises.
\<close>

theorem add_partner_success_counterexample:
  "\<not> (\<exists>w. fst (add_partner ru_env [] kniga koty) = Warned w) \<and>
   add_partner ru_env [] kniga koty = (Raised KeyError, [(kot, {})]) \<and>
   map_of (snd (add_partner ru_env [] kniga koty)) kniga = None"
  using add_koty_empty by (simp add: words)

text \<open>
  Claim C9 (order of the exported dictionary), as the code has it. For a non-empty
  lexicon the export holds one entry for each entry of the lexicon, in the order of the
  lexicon's keys (their insertion order); the partner sequence of each entry is sorted,
  without repetition, and lists the partner set of the lemma.
\<close>

theorem export_order:
  assumes "lexicon \<noteq> []"
  shows "\<exists>out. save_lexicon lexicon = Some out \<and> map fst out = map fst lexicon \<and>
           (\<forall>i < length lexicon.
              sorted (snd (out ! i)) \<and> distinct (snd (out ! i)) \<and>
              (finite (snd (lexicon ! i)) \<longrightarrow> set (snd (out ! i)) = snd (lexicon ! i)))"
proof -
  let ?out = "map (\<lambda>(k, v). (k, sorted_list_of_set v)) lexicon"
  have "snd (?out ! i) = sorted_list_of_set (snd (lexicon ! i))" if "i < length lexicon" for i
    using that by (simp add: case_prod_beta)
  then have "\<forall>i < length lexicon.
              sorted (snd (?out ! i)) \<and> distinct (snd (?out ! i)) \<and>
              (finite (snd (lexicon ! i)) \<longrightarrow> set (snd (?out ! i)) = snd (lexicon ! i))"
    by simp
  with save_lexicon_Some [OF assms] map_fst_export [of sorted_list_of_set lexicon]
  show ?thesis by blast
qed

theorem export_order_witness:
  "lexicon1 \<noteq> [] \<and>
   (\<exists>out. save_lexicon lexicon1 = Some out \<and> map fst out = [koshka, spat, sobaka, bezhat] \<and>
      snd (out ! 0) = [spat])"
proof -
  have ne: "lexicon1 \<noteq> []" by (simp add: lexicon1_def)
  from export_order [OF ne] obtain out where out: "save_lexicon lexicon1 = Some out"
    "map fst out = map fst lexicon1" by blast
  from out(1) have "snd (out ! 0) = [spat]"
    by (auto simp: save_lexicon_def lexicon1_def)
  with out ne show ?thesis by (simp add: lexicon1_def)
qed

text \<open>
  Against C9 as stated: after loading "Koshka spit. Sobaka bezhit." into the empty
  lexicon the exported entries are those of "koshka", "spat", "sobaka", "bezhat", in
  this order, which is not the sorted one.
\<close>

theorem export_order_counterexample:
  "map fst (the (save_lexicon (snd (load_file ru_env [] document1)))) =
     [koshka, spat, sobaka, bezhat] \<and>
   \<not> sorted [koshka, spat, sobaka, bezhat]"
  by (simp add: load_document1 save_lexicon_def lexicon1_def words)

end
